theory Spec2Isabelle
  imports Complex_Main
begin

section \<open>FactureSimple: invoice numbering, lifecycle and PDF pagination\<close>

text \<open>
  A shallow embedding of the algorithmic parts of \<^verbatim>\<open>src/App.tsx\<close>:
  \<^verbatim>\<open>generateSmartInvoiceNumber\<close>, \<^verbatim>\<open>updateArticle\<close>, \<^verbatim>\<open>calculatePaymentDue\<close> and
  \<^verbatim>\<open>updatePaymentDue\<close>, \<^verbatim>\<open>finalizeInvoice\<close>, and the pagination and render pass of
  \<^verbatim>\<open>generatePDF\<close>.

  Conventions. A JavaScript string is a \<^typ>\<open>string\<close> holding its UTF-8 bytes; the string
  operations used by the source (\<^verbatim>\<open>split\<close> and \<^verbatim>\<open>startsWith\<close> on ASCII separators,
  \<^verbatim>\<open>padStart\<close> on digit strings) act alike on both encodings. An integer-valued JavaScript
  number is an \<^typ>\<open>int\<close> (exact below \<open>2^53\<close>, which is every value an invoice sequence or
  a page coordinate takes); \<^verbatim>\<open>NaN\<close> is \<^const>\<open>None\<close>. Prices and quantities are \<^typ>\<open>rat\<close>.
  React state setters are explicit state passing; timers that only hide a message again
  are left out.
\<close>

subsection \<open>The JavaScript library functions the source calls\<close>

definition digit_char :: "nat \<Rightarrow> char" where
  "digit_char n = ''0123456789'' ! (n mod 10)"

text \<open>\<^verbatim>\<open>String(n)\<close> for a natural number: its decimal digits.\<close>

fun String_nat :: "nat \<Rightarrow> string" where
  "String_nat n = (if n < 10 then [digit_char n] else String_nat (n div 10) @ [digit_char n])"

declare String_nat.simps [simp del]

definition String_int :: "int \<Rightarrow> string" where
  "String_int i = (if i < 0 then CHR ''-'' # String_nat (nat (- i)) else String_nat (nat i))"

text \<open>\<^verbatim>\<open>s.padStart(n, c)\<close> with a one-character filler.\<close>

definition padStart :: "nat \<Rightarrow> char \<Rightarrow> string \<Rightarrow> string" where
  "padStart n c s = replicate (n - length s) c @ s"

definition startsWith :: "string \<Rightarrow> string \<Rightarrow> bool" where
  "startsWith s p = (take (length p) s = p)"

text \<open>\<^verbatim>\<open>s.split(sep)\<close> with a one-character separator; \<^verbatim>\<open>"".split("-")\<close> is \<^verbatim>\<open>[""]\<close>.\<close>

fun split :: "char \<Rightarrow> string \<Rightarrow> string list" where
  "split sep [] = [[]]"
| "split sep (c # cs) =
     (if c = sep then [] # split sep cs
      else (case split sep cs of [] \<Rightarrow> [[c]] | p # ps \<Rightarrow> (c # p) # ps))"

fun join :: "string \<Rightarrow> string list \<Rightarrow> string" where
  "join sep [] = []"
| "join sep [x] = x"
| "join sep (x # y # ys) = x @ sep @ join sep (y # ys)"

text \<open>
  \<^verbatim>\<open>parseInt(s)\<close> with no radix: leading white space is skipped, then an optional sign, then
  an optional \<^verbatim>\<open>0x\<close> prefix (radix 16), then the longest run of digits; no digit gives
  \<^verbatim>\<open>NaN\<close>. White space is the ECMAScript set, given here by its UTF-8 bytes.
\<close>

definition ws1 :: "string" where
  "ws1 = [CHR 0x09, CHR 0x0A, CHR 0x0B, CHR 0x0C, CHR 0x0D, CHR 0x20]"

definition ws2 :: "string list" where
  "ws2 = [[CHR 0xC2, CHR 0xA0]]"

definition ws3 :: "string list" where
  "ws3 = [[CHR 0xE1, CHR 0x9A, CHR 0x80], [CHR 0xE2, CHR 0x80, CHR 0x80],
          [CHR 0xE2, CHR 0x80, CHR 0x81], [CHR 0xE2, CHR 0x80, CHR 0x82],
          [CHR 0xE2, CHR 0x80, CHR 0x83], [CHR 0xE2, CHR 0x80, CHR 0x84],
          [CHR 0xE2, CHR 0x80, CHR 0x85], [CHR 0xE2, CHR 0x80, CHR 0x86],
          [CHR 0xE2, CHR 0x80, CHR 0x87], [CHR 0xE2, CHR 0x80, CHR 0x88],
          [CHR 0xE2, CHR 0x80, CHR 0x89], [CHR 0xE2, CHR 0x80, CHR 0x8A],
          [CHR 0xE2, CHR 0x80, CHR 0xA8], [CHR 0xE2, CHR 0x80, CHR 0xA9],
          [CHR 0xE2, CHR 0x80, CHR 0xAF], [CHR 0xE2, CHR 0x81, CHR 0x9F],
          [CHR 0xE3, CHR 0x80, CHR 0x80], [CHR 0xEF, CHR 0xBB, CHR 0xBF]]"

text \<open>How many bytes of white space stand at the head of a string (0 when none does).\<close>

definition ws_head :: "string \<Rightarrow> nat" where
  "ws_head s =
     (if s \<noteq> [] \<and> hd s \<in> set ws1 then 1
      else if 2 \<le> length s \<and> take 2 s \<in> set ws2 then 2
      else if 3 \<le> length s \<and> take 3 s \<in> set ws3 then 3
      else 0)"

function trimStart :: "string \<Rightarrow> string" where
  "trimStart s = (if ws_head s = 0 then s else trimStart (drop (ws_head s) s))"
  by pat_completeness auto
termination
  by (relation "measure length") (auto simp: ws_head_def split: if_splits)

declare trimStart.simps [simp del]

definition digitVal :: "char \<Rightarrow> nat option" where
  "digitVal c =
     (let n = (of_char c :: nat) in
      if 48 \<le> n \<and> n \<le> 57 then Some (n - 48)
      else if 97 \<le> n \<and> n \<le> 122 then Some (n - 87)
      else if 65 \<le> n \<and> n \<le> 90 then Some (n - 55)
      else None)"

definition isDigitOf :: "nat \<Rightarrow> char \<Rightarrow> bool" where
  "isDigitOf R c = (case digitVal c of None \<Rightarrow> False | Some v \<Rightarrow> v < R)"

definition digitsValue :: "nat \<Rightarrow> string \<Rightarrow> nat" where
  "digitsValue R Z = foldl (\<lambda>acc c. acc * R + (case digitVal c of None \<Rightarrow> 0 | Some v \<Rightarrow> v)) 0 Z"

definition parseInt :: "string \<Rightarrow> int option" where
  "parseInt str =
     (let S = trimStart str;
          sign = (if startsWith S ''-'' then - 1 else 1 :: int);
          S1 = (if startsWith S ''-'' \<or> startsWith S ''+'' then tl S else S);
          hex = (startsWith S1 ''0x'' \<or> startsWith S1 ''0X'');
          R = (if hex then 16 else 10 :: nat);
          S2 = (if hex then drop 2 S1 else S1);
          Z = takeWhile (isDigitOf R) S2
      in if Z = [] then None else Some (sign * int (digitsValue R Z)))"

text \<open>\<^verbatim>\<open>parseInt(parts[i])\<close>: an index past the end reads \<^verbatim>\<open>undefined\<close>, which parses to \<^verbatim>\<open>NaN\<close>.\<close>

definition parseInt_at :: "string list \<Rightarrow> nat \<Rightarrow> int option" where
  "parseInt_at parts i = (if i < length parts then parseInt (parts ! i) else None)"


subsection \<open>Calendar dates\<close>

text \<open>
  A JavaScript \<^verbatim>\<open>Date\<close> is modelled by its local day number (days since 1 January 1970),
  \<^const>\<open>None\<close> for \<^verbatim>\<open>Invalid Date\<close>. The time of day and the zone offset are left out: the
  source only builds dates from \<^verbatim>\<open>new Date()\<close> and from date-only strings, and reads them
  back as local calendar dates. A date-only string is midnight UTC, so this is exact where
  the local zone is not west of UTC, as for the French users the application formats its
  dates for. The functions below follow the ECMAScript definitions of the same names;
  \<open>YearFromTime\<close> is computed from an estimate of the year, corrected by one where needed,
  and \<open>InLeapYear\<close> takes the year.
\<close>

type_synonym Date = "int option"

definition DayFromYear :: "int \<Rightarrow> int" where
  "DayFromYear y =
     365 * (y - 1970) + (y - 1969) div 4 - (y - 1901) div 100 + (y - 1601) div 400"

definition YearFromTime :: "int \<Rightarrow> int" where
  "YearFromTime t =
     (let y = 1970 + (400 * t) div 146097 in
      if t < DayFromYear y then y - 1
      else if DayFromYear (y + 1) \<le> t then y + 1
      else y)"

definition InLeapYear :: "int \<Rightarrow> int" where
  "InLeapYear y = (if y mod 4 = 0 \<and> (y mod 100 \<noteq> 0 \<or> y mod 400 = 0) then 1 else 0)"

definition DayWithinYear :: "int \<Rightarrow> int" where
  "DayWithinYear t = t - DayFromYear (YearFromTime t)"

text \<open>The day within the year on which month \<open>m\<close> (0 to 11) starts.\<close>

definition monthStart :: "int \<Rightarrow> int \<Rightarrow> int" where
  "monthStart leap m =
     (if m = 0 then 0 else if m = 1 then 31 else if m = 2 then 59 + leap
      else if m = 3 then 90 + leap else if m = 4 then 120 + leap
      else if m = 5 then 151 + leap else if m = 6 then 181 + leap
      else if m = 7 then 212 + leap else if m = 8 then 243 + leap
      else if m = 9 then 273 + leap else if m = 10 then 304 + leap
      else 334 + leap)"

definition MonthFromTime :: "int \<Rightarrow> int" where
  "MonthFromTime t =
     (let d = DayWithinYear t; leap = InLeapYear (YearFromTime t) in
      if d < 31 then 0 else if d < 59 + leap then 1 else if d < 90 + leap then 2
      else if d < 120 + leap then 3 else if d < 151 + leap then 4
      else if d < 181 + leap then 5 else if d < 212 + leap then 6
      else if d < 243 + leap then 7 else if d < 273 + leap then 8
      else if d < 304 + leap then 9 else if d < 334 + leap then 10
      else 11)"

definition DateFromTime :: "int \<Rightarrow> int" where
  "DateFromTime t =
     DayWithinYear t - monthStart (InLeapYear (YearFromTime t)) (MonthFromTime t) + 1"

text \<open>\<^verbatim>\<open>MakeDay(year, month, date)\<close>: months outside 0 to 11 carry into the year.\<close>

definition MakeDay :: "int \<Rightarrow> int \<Rightarrow> int \<Rightarrow> int" where
  "MakeDay y m dt =
     (let ym = y + m div 12; mn = m mod 12 in
      DayFromYear ym + monthStart (InLeapYear ym) mn + dt - 1)"

text \<open>\<^verbatim>\<open>TimeClip\<close>: a date more than \<open>10^8\<close> days from the epoch is invalid.\<close>

definition TimeClip :: "int \<Rightarrow> Date" where
  "TimeClip t = (if \<bar>t\<bar> \<le> 100000000 then Some t else None)"

definition getFullYear :: "int \<Rightarrow> int" where
  "getFullYear t = YearFromTime t"

definition getMonth :: "int \<Rightarrow> int" where
  "getMonth t = MonthFromTime t"

definition getDate :: "int \<Rightarrow> int" where
  "getDate t = DateFromTime t"

definition setDate :: "int \<Rightarrow> int \<Rightarrow> Date" where
  "setDate t dt = TimeClip (MakeDay (YearFromTime t) (MonthFromTime t) dt)"

text \<open>\<^verbatim>\<open>d.toLocaleDateString('fr-FR')\<close>: day/month/year, day and month on two digits.\<close>

definition toLocaleDateString :: "Date \<Rightarrow> string" where
  "toLocaleDateString d =
     (case d of
        None \<Rightarrow> ''Invalid Date''
      | Some t \<Rightarrow>
          padStart 2 CHR ''0'' (String_int (getDate t)) @ ''/'' @
          padStart 2 CHR ''0'' (String_int (getMonth t + 1)) @ ''/'' @
          String_int (getFullYear t))"

text \<open>
  \<^verbatim>\<open>new Date(s)\<close> for a date-only ISO string \<^verbatim>\<open>YYYY-MM-DD\<close>. Any other string is
  \<^const>\<open>None\<close> here (ECMAScript leaves the parsing of other formats to the engine).
\<close>

definition allDigits :: "string \<Rightarrow> bool" where
  "allDigits s = list_all (isDigitOf 10) s"

definition DaysInMonth :: "int \<Rightarrow> int \<Rightarrow> int" where
  "DaysInMonth y m =
     (if m = 1 then 28 + InLeapYear y
      else if m = 3 \<or> m = 5 \<or> m = 8 \<or> m = 10 then 30 else 31)"

definition Date_parse :: "string \<Rightarrow> Date" where
  "Date_parse s =
     (case split CHR ''-'' s of
        [ys, ms, ds] \<Rightarrow>
          (if length ys = 4 \<and> length ms = 2 \<and> length ds = 2 \<and>
              allDigits ys \<and> allDigits ms \<and> allDigits ds
           then (let y = int (digitsValue 10 ys); m = int (digitsValue 10 ms);
                     d = int (digitsValue 10 ds) in
                 if 1 \<le> m \<and> m \<le> 12 \<and> 1 \<le> d \<and> d \<le> DaysInMonth y (m - 1)
                 then TimeClip (MakeDay y (m - 1) d) else None)
           else None)
      | _ \<Rightarrow> None)"

subsection \<open>Data model\<close>

text \<open>
  The interfaces of the source. A field named \<^verbatim>\<open>id\<close> or \<^verbatim>\<open>total\<close> is renamed, since HOL has
  constants of these names. \<^verbatim>\<open>ClientInfo\<close>'s fields are the first eight of
  \<^verbatim>\<open>CompanyInfo\<close>, and \<^verbatim>\<open>Invoice\<close>'s the first five of \<^verbatim>\<open>SavedInvoice\<close>, so the larger
  record extends the smaller one.
\<close>

record ClientInfo =
  firstName :: string
  lastName :: string
  address :: string
  postalCode :: string
  city :: string
  siret :: string
  phone :: string
  email :: string

record CompanyInfo = ClientInfo +
  companyName :: string
  accountName :: string
  bic :: string
  iban :: string
  bankName :: string
  logoUrl :: "string option"

record Article =
  article_id :: string
  name :: string
  description :: "string list"
  quantity :: rat
  unit :: string
  unitPrice :: rat
  total' :: rat

datatype InvoiceStatus = draft | finalized

record Invoice =
  invoiceNumber :: string
  invoiceDate :: string
  deliveryDate :: string
  paymentTerms :: string
  paymentDue :: string

record SavedInvoice = Invoice +
  invoice_id :: string
  companyInfo :: CompanyInfo
  clientInfo :: ClientInfo
  articles :: "Article list"
  totalAmount :: rat
  status :: InvoiceStatus
  createdAt :: string
  finalizedAt :: "string option"

subsection \<open>Invoice numbering: \<^verbatim>\<open>generateSmartInvoiceNumber\<close>\<close>










subsection \<open>Line items: \<^verbatim>\<open>updateArticle\<close>\<close>

text \<open>
  \<^verbatim>\<open>Partial<Article>\<close>: every key may be absent. \<^verbatim>\<open>'quantity' in updates\<close> is
  \<open>upd_quantity updates \<noteq> None\<close>.
\<close>

record ArticleUpdates =
  upd_id :: "string option"
  upd_name :: "string option"
  upd_description :: "string list option"
  upd_quantity :: "rat option"
  upd_unit :: "string option"
  upd_unitPrice :: "rat option"
  upd_total :: "rat option"

text \<open>The object spread \<^verbatim>\<open>{ ...article, ...updates }\<close>.\<close>

definition spread :: "Article \<Rightarrow> ArticleUpdates \<Rightarrow> Article" where
  "spread article updates =
     \<lparr>article_id = (case upd_id updates of None \<Rightarrow> article_id article | Some v \<Rightarrow> v),
      name = (case upd_name updates of None \<Rightarrow> name article | Some v \<Rightarrow> v),
      description =
        (case upd_description updates of None \<Rightarrow> description article | Some v \<Rightarrow> v),
      quantity = (case upd_quantity updates of None \<Rightarrow> quantity article | Some v \<Rightarrow> v),
      unit = (case upd_unit updates of None \<Rightarrow> unit article | Some v \<Rightarrow> v),
      unitPrice = (case upd_unitPrice updates of None \<Rightarrow> unitPrice article | Some v \<Rightarrow> v),
      total' = (case upd_total updates of None \<Rightarrow> total' article | Some v \<Rightarrow> v)\<rparr>"

definition updateArticle :: "string \<Rightarrow> ArticleUpdates \<Rightarrow> Article list \<Rightarrow> Article list" where
  "updateArticle i updates prevArticles =
     map (\<lambda>article.
            if article_id article = i then
              (let updated = spread article updates in
               if upd_quantity updates \<noteq> None \<or> upd_unitPrice updates \<noteq> None
               then updated\<lparr>total' := quantity updated * unitPrice updated\<rparr>
               else updated)
            else article)
         prevArticles"

text \<open>\<^verbatim>\<open>calculateTotal\<close>: \<^verbatim>\<open>articles.reduce((sum, article) => sum + article.total, 0)\<close>.\<close>

definition calculateTotal :: "Article list \<Rightarrow> rat" where
  "calculateTotal as = foldl (\<lambda>sum article. sum + total' article) 0 as"

subsection \<open>Payment due date: \<^verbatim>\<open>calculatePaymentDue\<close>, \<^verbatim>\<open>updatePaymentDue\<close>\<close>

text \<open>
  \<open>now\<close> is the day \<^verbatim>\<open>new Date()\<close> reads. A term string is never \<^verbatim>\<open>undefined\<close> here, so
  \<^verbatim>\<open>!terms || typeof terms !== 'string'\<close> is the test for the empty string.
\<close>

definition calculatePaymentDue :: "int \<Rightarrow> Date \<Rightarrow> string \<Rightarrow> string" where
  "calculatePaymentDue now invDate terms =
     (if terms = [] then toLocaleDateString (Some now)
      else
        (let days = parseInt_at (split CHR '' '' terms) 0;
             dueDate =
               (case invDate of
                  None \<Rightarrow> None
                | Some t \<Rightarrow> setDate t (getDate t + (case days of None \<Rightarrow> 30 | Some n \<Rightarrow> n)))
         in toLocaleDateString dueDate))"

text \<open>
  \<^verbatim>\<open>updatePaymentDue\<close> acts on the \<^verbatim>\<open>invoice\<close> state; the date string is turned round from
  day/month/year to year-month-day and parsed.
\<close>

definition updatePaymentDue :: "int \<Rightarrow> string \<Rightarrow> string \<Rightarrow> Invoice \<Rightarrow> Invoice" where
  "updatePaymentDue now invDate terms prev =
     (if invDate = [] \<or> terms = [] then prev
      else
        (let date = Date_parse (join ''-'' (rev (split CHR ''/'' invDate)));
             dueDate = calculatePaymentDue now date terms
         in prev\<lparr>paymentDue := dueDate\<rparr>))"

definition handlePaymentTermsChange :: "int \<Rightarrow> string \<Rightarrow> Invoice \<Rightarrow> Invoice" where
  "handlePaymentTermsChange now terms prev =
     updatePaymentDue now (invoiceDate prev) terms (prev\<lparr>paymentTerms := terms\<rparr>)"

text \<open>The term \<^verbatim>\<open>20 jours a reception\<close> of the source, accents as UTF-8 bytes.\<close>

definition terms20 :: string where
  "terms20 = ''20 jours '' @ [CHR 0xC3, CHR 0xA0] @ '' r'' @ [CHR 0xC3, CHR 0xA9] @ ''ception''"

subsection \<open>Lifecycle: \<^verbatim>\<open>saveUserProfile\<close>, \<^verbatim>\<open>saveInvoiceToHistory\<close>, \<^verbatim>\<open>finalizeInvoice\<close>\<close>

datatype MessageKind = success | error | info

record Message =
  msgType :: MessageKind
  msgText :: string

record AppUser =
  user_id :: string
  user_email :: string

text \<open>
  The component state the three functions read and write, and \<open>store\<close>, the persisted
  invoice history of the user (the \<^verbatim>\<open>localStorage\<close> entry, or the \<^verbatim>\<open>invoices\<close> table when
  Supabase is configured; fields are stored encrypted and read back decrypted, which is
  the identity here). The state variables \<^verbatim>\<open>companyInfo\<close>, \<^verbatim>\<open>clientInfo\<close> and \<^verbatim>\<open>articles\<close>
  carry a suffix, since \<^verbatim>\<open>SavedInvoice\<close> has fields of these names.
\<close>

record AppState =
  user :: "AppUser option"
  currentInvoiceId :: "string option"
  invoiceStatus :: InvoiceStatus
  invoice :: Invoice
  companyInfoState :: CompanyInfo
  clientInfoState :: ClientInfo
  articlesState :: "Article list"
  message :: "Message option"
  hasUnsavedChanges :: bool
  store :: "SavedInvoice list"

text \<open>
  What one call meets outside the component: the module constant
  \<^verbatim>\<open>isSupabaseConfigured\<close>, whether the two upserts succeed (and the error text when they do
  not), and the two readings of the clock, \<^verbatim>\<open>new Date().toISOString()\<close>.
\<close>

record World =
  isSupabaseConfigured :: bool
  profileUpsertOk :: bool
  profileErrorMessage :: string
  invoiceUpsertOk :: bool
  invoiceErrorMessage :: string
  clockCreated :: string
  clockFinalized :: string

definition e_acute :: string where
  "e_acute = [CHR 0xC3, CHR 0xA9]"

definition e_grave :: string where
  "e_grave = [CHR 0xC3, CHR 0xA8]"

definition msg_noInvoice :: string where
  "msg_noInvoice = ''Erreur : aucune facture en cours. Veuillez cr'' @ e_acute @
     ''er une nouvelle facture.''"

definition msg_noUser :: string where
  "msg_noUser = ''Erreur : utilisateur non connect'' @ e_acute @ ''. Veuillez vous reconnecter.''"

definition msg_cancelled :: string where
  "msg_cancelled = ''Erreur : impossible de sauvegarder les informations. Finalisation annul'' @
     e_acute @ ''e.''"

definition msg_finalized :: string where
  "msg_finalized = ''Facture finalis'' @ e_acute @ ''e avec succ'' @ e_grave @ ''s ! '' @
     [CHR 0xF0, CHR 0x9F, CHR 0x8E, CHR 0x89] @ '' Vous pouvez maintenant cr'' @ e_acute @
     ''er une nouvelle facture.''"

definition msg_notConfigured :: string where
  "msg_notConfigured = ''Impossible de sauvegarder : Supabase non configur'' @ e_acute @ ''.''"

definition msg_profileSaved :: string where
  "msg_profileSaved = ''Informations sauvegard'' @ e_acute @ ''es avec succ'' @ e_grave @ ''s !''"

definition msg_saveError :: "string \<Rightarrow> string" where
  "msg_saveError m = ''Erreur de sauvegarde : '' @ m"

definition msg_userOffline :: string where
  "msg_userOffline = ''Erreur : utilisateur non connect'' @ e_acute @ ''.''"

definition msg_draftSaved :: string where
  "msg_draftSaved = ''Facture sauvegard'' @ e_acute @ ''e (donn'' @ e_acute @ ''es chiffr'' @
     e_acute @ ''es) !''"

definition setMessage :: "MessageKind \<Rightarrow> string \<Rightarrow> AppState \<Rightarrow> AppState" where
  "setMessage k t s = s\<lparr>message := Some \<lparr>msgType = k, msgText = t\<rparr>\<rparr>"

text \<open>
  \<^verbatim>\<open>saveUserProfile(showSuccessMessage)\<close> returns whether the profile was saved. The profile
  row it writes is in a table no function here reads, and is left out of the state.
\<close>

definition saveUserProfile :: "World \<Rightarrow> bool \<Rightarrow> AppState \<Rightarrow> bool \<times> AppState" where
  "saveUserProfile w showSuccessMessage s =
     (if user s = None \<or> \<not> isSupabaseConfigured w then
        (False, if showSuccessMessage then setMessage error msg_notConfigured s else s)
      else if profileUpsertOk w then
        (True, (if showSuccessMessage then setMessage success msg_profileSaved s else s)
                 \<lparr>hasUnsavedChanges := False\<rparr>)
      else
        (False,
         if showSuccessMessage then setMessage error (msg_saveError (profileErrorMessage w)) s
         else s))"

text \<open>\<^verbatim>\<open>history.findIndex(inv => inv.id === id)\<close>: \<^const>\<open>None\<close> for \<open>-1\<close>.\<close>

fun findIndex :: "('a \<Rightarrow> bool) \<Rightarrow> 'a list \<Rightarrow> nat option" where
  "findIndex P [] = None"
| "findIndex P (x # xs) =
     (if P x then Some 0 else (case findIndex P xs of None \<Rightarrow> None | Some i \<Rightarrow> Some (Suc i)))"

text \<open>Replace the entry of the same id, or append: the upsert of both back ends.\<close>

definition upsertInvoice :: "SavedInvoice list \<Rightarrow> SavedInvoice \<Rightarrow> SavedInvoice list" where
  "upsertInvoice h invoiceData =
     (case findIndex (\<lambda>inv. invoice_id inv = invoice_id invoiceData) h of
        Some existingIndex \<Rightarrow> h[existingIndex := invoiceData]
      | None \<Rightarrow> h @ [invoiceData])"

definition saveInvoiceToHistory :: "World \<Rightarrow> SavedInvoice \<Rightarrow> AppState \<Rightarrow> AppState" where
  "saveInvoiceToHistory w invoiceData s =
     (if user s = None then setMessage error msg_userOffline s
      else if \<not> isSupabaseConfigured w then
        s\<lparr>store := upsertInvoice (store s) invoiceData\<rparr>
      else if invoiceUpsertOk w then
        (let s' = s\<lparr>store := upsertInvoice (store s) invoiceData\<rparr> in
         if status invoiceData = draft then setMessage success msg_draftSaved s' else s')
      else setMessage error (msg_saveError (invoiceErrorMessage w)) s)"

text \<open>
  \<^verbatim>\<open>finalizeInvoice\<close>. \<^verbatim>\<open>!currentInvoiceId\<close> holds of \<^verbatim>\<open>null\<close> and of the empty string. The
  call of \<^verbatim>\<open>saveInvoiceToHistory\<close> is not awaited: the status and the success message are
  set first, and the save then settles on that state.
\<close>

definition finalizeInvoice :: "World \<Rightarrow> AppState \<Rightarrow> AppState" where
  "finalizeInvoice w s =
     (case currentInvoiceId s of
        None \<Rightarrow> setMessage error msg_noInvoice s
      | Some cid \<Rightarrow>
          if cid = [] then setMessage error msg_noInvoice s
          else if user s = None then setMessage error msg_noUser s
          else
            (let (profileSaved, s1) = saveUserProfile w False s in
             if \<not> profileSaved \<and> isSupabaseConfigured w then
               setMessage error msg_cancelled s1
             else
               (let invoiceData =
                      \<lparr>invoiceNumber = invoiceNumber (invoice s1),
                       invoiceDate = invoiceDate (invoice s1),
                       deliveryDate = deliveryDate (invoice s1),
                       paymentTerms = paymentTerms (invoice s1),
                       paymentDue = paymentDue (invoice s1),
                       invoice_id = cid,
                       companyInfo = companyInfoState s1,
                       clientInfo = clientInfoState s1,
                       articles = articlesState s1,
                       totalAmount = calculateTotal (articlesState s1),
                       status = finalized,
                       createdAt = clockCreated w,
                       finalizedAt = Some (clockFinalized w)\<rparr>
                in saveInvoiceToHistory w invoiceData
                     (setMessage success msg_finalized (s1\<lparr>invoiceStatus := finalized\<rparr>)))))"

subsection \<open>PDF pagination and render pass: \<^verbatim>\<open>generatePDF\<close>\<close>

text \<open>
  The layout constants of \<^verbatim>\<open>generatePDF\<close> that the packing loop reads are gathered in a
  record, so that the loop can also be run on another page geometry; \<open>sourceLayout\<close> holds
  the values of the source. \<open>yPos\<close> is the cursor when the table starts: the source adds
  35, 15, 8, five times 6, 15, 7 and 20 to the initial 25. \<open>headerSpace\<close> and
  \<open>nextPageStart\<close> name the literals 10 and 50 of the packing loop.
\<close>

record Layout =
  yPos :: int
  maxYPerPage :: int
  bottomPadding :: int
  totalHTSpace :: int
  paymentAndMentionsSpace :: int
  headerSpace :: int
  nextPageStart :: int

definition sourceLayout :: Layout where
  "sourceLayout =
     \<lparr>yPos = 25 + 35 + 15 + 8 + 6 + 6 + 6 + 6 + 6 + 15 + 7 + 20,
      maxYPerPage = 285 - 30,
      bottomPadding = 5,
      totalHTSpace = 1,
      paymentAndMentionsSpace = 60,
      headerSpace = 10,
      nextPageStart = 50\<rparr>"

text \<open>\<^verbatim>\<open>Math.max(20, article.description.length * 4 + 10)\<close>, as the packing loop has it.\<close>

definition articleHeight :: "Article \<Rightarrow> int" where
  "articleHeight article = max 20 (int (length (description article)) * 4 + 10)"

record PageBreak =
  page :: nat
  pageArticles :: "Article list"
  startIndex :: nat
  hasSpaceForTotal :: bool

record PackState =
  currentPageY :: int
  currentPage :: nat
  pageBreaks :: "PageBreak list"
  currentPageArticles :: "Article list"
  articleStartIndex :: nat

definition closePage :: "Layout \<Rightarrow> PackState \<Rightarrow> PageBreak" where
  "closePage L s =
     \<lparr>page = currentPage s,
      pageArticles = currentPageArticles s,
      startIndex = articleStartIndex s,
      hasSpaceForTotal =
        (currentPageY s + totalHTSpace L \<le> maxYPerPage L - bottomPadding L)\<rparr>"

text \<open>One turn of \<^verbatim>\<open>articles.forEach((article, index) => ...)\<close>.\<close>

definition packStep :: "Layout \<Rightarrow> PackState \<Rightarrow> Article \<Rightarrow> nat \<Rightarrow> PackState" where
  "packStep L s article index =
     (let isFirstArticleOfPage = (length (currentPageArticles s) = 0);
          spaceNeeded =
            articleHeight article + (if isFirstArticleOfPage then headerSpace L else 0)
      in if currentPageY s + spaceNeeded > maxYPerPage L - bottomPadding L then
           \<lparr>currentPageY = nextPageStart L + spaceNeeded,
            currentPage = currentPage s + 1,
            pageBreaks =
              (if length (currentPageArticles s) > 0 then pageBreaks s @ [closePage L s]
               else pageBreaks s),
            currentPageArticles = [article],
            articleStartIndex = index\<rparr>
         else
           s\<lparr>currentPageArticles := currentPageArticles s @ [article],
             currentPageY := currentPageY s + spaceNeeded\<rparr>)"

fun packLoop :: "Layout \<Rightarrow> PackState \<Rightarrow> nat \<Rightarrow> Article list \<Rightarrow> PackState" where
  "packLoop L s index [] = s"
| "packLoop L s index (article # rest) = packLoop L (packStep L s article index) (index + 1) rest"

definition packInit :: "Layout \<Rightarrow> PackState" where
  "packInit L =
     \<lparr>currentPageY = yPos L, currentPage = 1, pageBreaks = [], currentPageArticles = [],
      articleStartIndex = 0\<rparr>"

text \<open>The list \<^verbatim>\<open>pageBreaks\<close> after the loop and the push of the last page.\<close>

definition computePageBreaks :: "Layout \<Rightarrow> Article list \<Rightarrow> PageBreak list" where
  "computePageBreaks L as =
     (let s = packLoop L (packInit L) 0 as in
      if length (currentPageArticles s) > 0 \<and>
         find (\<lambda>p. startIndex p = articleStartIndex s) (pageBreaks s) = None
      then pageBreaks s @ [closePage L s]
      else pageBreaks s)"

text \<open>\<^verbatim>\<open>pageBreaks[pageBreaks.length - 1]\<close>: \<^verbatim>\<open>undefined\<close> on the empty list.\<close>

definition lastPage :: "PageBreak list \<Rightarrow> PageBreak option" where
  "lastPage pbs = (if pbs = [] then None else Some (last pbs))"

text \<open>The page count computed before drawing, \<^verbatim>\<open>totalPages\<close>.\<close>

definition computeTotalPages :: "Layout \<Rightarrow> PageBreak list \<Rightarrow> nat" where
  "computeTotalPages L pbs =
     (let totalPages1 =
            (case lastPage pbs of
               None \<Rightarrow> length pbs
             | Some lastPageForTotal \<Rightarrow>
                 if \<not> hasSpaceForTotal lastPageForTotal then length pbs + 1 else length pbs)
      in case lastPage pbs of
           None \<Rightarrow> totalPages1
         | Some lastPageForTotal \<Rightarrow>
             if hasSpaceForTotal lastPageForTotal then
               (let isFirstPage = (length pbs = 1);
                    startY = (if isFirstPage then yPos L else 50);
                    estimatedYAfterArticles =
                      foldl (\<lambda>y article. y + max 20 (int (length (description article)) * 4 + 10))
                        (startY + 10) (pageArticles lastPageForTotal) + 10;
                    spaceAfterTotal = estimatedYAfterArticles + totalHTSpace L
                in if spaceAfterTotal + paymentAndMentionsSpace L > maxYPerPage L - bottomPadding L
                   then totalPages1 + 1 else totalPages1)
             else totalPages1)"

text \<open>
  The render pass. The document is the list of its pages, the current page last; a page is
  the list of what was drawn on it, in order. \<^verbatim>\<open>new jsPDF\<close> starts with one page, on which
  the logo, the parties and the dates are drawn before the table.
\<close>

datatype Draw =
    Preamble
  | TableHeader int
  | ArticleRow nat int
  | TableBorder int int
  | PageFooter nat nat
  | TotalHT int string string
  | PaymentAndMentions int

type_synonym Doc = "Draw list list"

definition addPage :: "Doc \<Rightarrow> Doc" where
  "addPage doc = doc @ [[]]"

definition draw :: "Draw \<Rightarrow> Doc \<Rightarrow> Doc" where
  "draw d doc = (if doc = [] then [[d]] else butlast doc @ [last doc @ [d]])"

text \<open>\<^verbatim>\<open>drawTableHeader(startY)\<close> returns the ordinate below the header.\<close>

definition drawTableHeader :: "int \<Rightarrow> Doc \<Rightarrow> int \<times> Doc" where
  "drawTableHeader startY doc = (startY + 10, draw (TableHeader startY) doc)"

text \<open>\<^verbatim>\<open>drawArticle(article, index, contentY)\<close> returns the height of the row.\<close>

definition drawArticle :: "Article \<Rightarrow> nat \<Rightarrow> int \<Rightarrow> Doc \<Rightarrow> int \<times> Doc" where
  "drawArticle article index contentY doc =
     (max 20 (int (length (description article)) * 4 + 10), draw (ArticleRow index contentY) doc)"

definition drawPageFooter :: "nat \<Rightarrow> nat \<Rightarrow> Doc \<Rightarrow> Doc" where
  "drawPageFooter pageNum totalPages doc = draw (PageFooter pageNum totalPages) doc"

text \<open>The rows of one page: \<^verbatim>\<open>pageData.articles.forEach((article, articleIndex) => ...)\<close>.\<close>

fun drawRows :: "nat \<Rightarrow> nat \<Rightarrow> Article list \<Rightarrow> int \<times> Doc \<Rightarrow> int \<times> Doc" where
  "drawRows start articleIndex [] (contentY, doc) = (contentY, doc)"
| "drawRows start articleIndex (article # rest) (contentY, doc) =
     (let (h, doc') = drawArticle article (start + articleIndex) contentY doc
      in drawRows start (articleIndex + 1) rest (contentY + h, doc'))"

text \<open>One turn of \<^verbatim>\<open>pageBreaks.forEach((pageData, pageIndex) => ...)\<close>.\<close>

definition renderPage :: "nat \<Rightarrow> PageBreak \<Rightarrow> nat \<Rightarrow> int \<times> Doc \<Rightarrow> int \<times> Doc" where
  "renderPage totalPages pageData pageIndex st =
     (let (finalYPos, doc) =
            (if pageIndex > 0 then (50, addPage (snd st)) else st);
          (headerEndY, doc1) = drawTableHeader finalYPos doc;
          (contentY, doc2) = drawRows (startIndex pageData) 0 (pageArticles pageData) (headerEndY, doc1);
          tableHeight = contentY - finalYPos;
          doc3 = draw (TableBorder finalYPos tableHeight) doc2
      in (contentY + 10, drawPageFooter (page pageData) totalPages doc3))"

fun renderPages :: "nat \<Rightarrow> nat \<Rightarrow> PageBreak list \<Rightarrow> int \<times> Doc \<Rightarrow> int \<times> Doc" where
  "renderPages totalPages pageIndex [] st = st"
| "renderPages totalPages pageIndex (pageData # rest) st =
     renderPages totalPages (pageIndex + 1) rest (renderPage totalPages pageData pageIndex st)"

text \<open>
  \<^verbatim>\<open>x.toFixed(2)\<close> on an exact amount: the nearest multiple of 1/100, the larger one on a
  tie, with the sign in front.
\<close>

definition toFixed2 :: "rat \<Rightarrow> string" where
  "toFixed2 x =
     (let n = nat \<lfloor>\<bar>x\<bar> * 100 + 1 / 2\<rfloor> in
      (if x < 0 then ''-'' else []) @ String_nat (n div 100) @ ''.'' @
      padStart 2 CHR ''0'' (String_nat (n mod 100)))"

text \<open>The template \<^verbatim>\<open>`${totalAmount.toFixed(2)} EUR`\<close>, the euro sign as UTF-8 bytes.\<close>

definition euroText :: "rat \<Rightarrow> string" where
  "euroText x = toFixed2 x @ '' '' @ [CHR 0xE2, CHR 0x82, CHR 0xAC]"

text \<open>
  The drawing after the table: the Total HT box, on the last table page or on a new one,
  then the payment details and legal notices, after the box or on a new page.
\<close>

definition renderSummary :: "Layout \<Rightarrow> PageBreak list \<Rightarrow> nat \<Rightarrow> rat \<Rightarrow> int \<times> Doc \<Rightarrow> Doc" where
  "renderSummary L pbs totalPages amount st =
     (let (finalYPos, doc) = st;
          (totalHTYPos, needsNewPageForPayment, doc1) =
            (case lastPage pbs of
               Some lastPageData \<Rightarrow>
                 if hasSpaceForTotal lastPageData then
                   (finalYPos,
                    finalYPos + totalHTSpace L + paymentAndMentionsSpace L
                      > maxYPerPage L - bottomPadding L,
                    doc)
                 else (50, False, drawPageFooter totalPages totalPages (addPage doc))
             | None \<Rightarrow> (50, False, drawPageFooter totalPages totalPages (addPage doc)));
          doc2 = draw (TotalHT totalHTYPos ''Total HT'' (euroText amount)) doc1;
          y1 = totalHTYPos + 20;
          (y2, doc3) =
            (if needsNewPageForPayment
             then (50, drawPageFooter totalPages totalPages (addPage doc2))
             else (y1, doc2))
      in draw (PaymentAndMentions y2) doc3)"

text \<open>The whole of the drawing, from the table on.\<close>

definition renderPDF :: "Layout \<Rightarrow> Article list \<Rightarrow> Doc" where
  "renderPDF L as =
     (let pbs = computePageBreaks L as;
          totalPages = computeTotalPages L pbs;
          totalAmount = foldl (\<lambda>sum article. sum + total' article) 0 as
      in renderSummary L pbs totalPages totalAmount
           (renderPages totalPages 0 pbs (yPos L, [[Preamble]])))"

text \<open>The footers printed on each page, as pairs (page number, page count).\<close>

fun footerOf :: "Draw \<Rightarrow> (nat \<times> nat) option" where
  "footerOf (PageFooter pageNum totalPages) = Some (pageNum, totalPages)"
| "footerOf d = None"

definition footers :: "Doc \<Rightarrow> (nat \<times> nat) list list" where
  "footers doc = map (List.map_filter footerOf) doc"

text \<open>What holds of the packing state before the article of index \<open>i\<close> is looked at.\<close>

definition packInv :: "PackState \<Rightarrow> nat \<Rightarrow> bool" where
  "packInv s i =
     (list_all (\<lambda>p. startIndex p < articleStartIndex s) (pageBreaks s) \<and>
      articleStartIndex s \<le> i \<and>
      (currentPageArticles s = [] \<or> articleStartIndex s < i) \<and>
      (currentPageArticles s \<noteq> [] \<or> pageBreaks s = []))"

subsection \<open>Example data\<close>

definition emptyClient :: ClientInfo where
  "emptyClient = \<lparr>firstName = [], lastName = [], address = [], postalCode = [], city = [],
     siret = [], phone = [], email = []\<rparr>"

definition emptyCompany :: CompanyInfo where
  "emptyCompany = \<lparr>firstName = [], lastName = [], address = [], postalCode = [], city = [],
     siret = [], phone = [], email = [], companyName = [], accountName = [], bic = [],
     iban = [], bankName = [], logoUrl = None\<rparr>"



text \<open>An article with \<open>n\<close> description lines.\<close>

definition item :: "string \<Rightarrow> nat \<Rightarrow> rat \<Rightarrow> rat \<Rightarrow> Article" where
  "item i n q p =
     \<lparr>article_id = i, name = ''Service'', description = replicate n ''Description'',
      quantity = q, unit = ''Heure(s)'', unitPrice = p, total' = q * p\<rparr>"


definition twoItems :: "Article list" where
  "twoItems = [item ''1'' 1 2 10, item ''2'' 1 1 5]"

definition noUpdates :: ArticleUpdates where
  "noUpdates =
     \<lparr>upd_id = None, upd_name = None, upd_description = None, upd_quantity = None,
      upd_unit = None, upd_unitPrice = None, upd_total = None\<rparr>"

text \<open>A draft in progress, with a user signed in, and nothing in the store yet.\<close>

definition draftState :: AppState where
  "draftState =
     \<lparr>user = Some \<lparr>user_id = ''u1'', user_email = ''u1@example.org''\<rparr>,
      currentInvoiceId = Some ''1709287200000'',
      invoiceStatus = draft,
      invoice = \<lparr>invoiceNumber = ''2024-03-0012'', invoiceDate = ''01/03/2024'',
                  deliveryDate = ''01/03/2024'', paymentTerms = terms20,
                  paymentDue = ''21/03/2024''\<rparr>,
      companyInfoState = emptyCompany,
      clientInfoState = emptyClient,
      articlesState = twoItems,
      message = None,
      hasUnsavedChanges = True,
      store = []\<rparr>"


text \<open>A call with Supabase configured in which the profile upsert fails.\<close>

definition failingWorld :: World where
  "failingWorld =
     \<lparr>isSupabaseConfigured = True, profileUpsertOk = False,
      profileErrorMessage = ''network error'', invoiceUpsertOk = True,
      invoiceErrorMessage = [], clockCreated = ''2024-03-01T10:00:00.000Z'',
      clockFinalized = ''2024-03-01T10:00:00.000Z''\<rparr>"

section \<open>Properties\<close>

subsection \<open>Library facts\<close>





subsection \<open>The calendar\<close>

text \<open>
  \<^const>\<open>YearFromTime\<close> is the year ECMAScript defines: the one whose first day is at or
  before \<open>t\<close> and whose successor's first day is after it.
\<close>

lemma div_bounds:
  fixes x d :: int
  assumes "0 < d"
  shows "d * (x div d) \<le> x \<and> x < d * (x div d) + d"
proof -
  have "x = d * (x div d) + x mod d" by simp
  moreover have "0 \<le> x mod d" "x mod d < d" using assms by simp_all
  ultimately show ?thesis by linarith
qed

lemma year_lower:
  fixes q t A B C :: int
  assumes "146097 * q \<le> 400 * t" "4 * A \<le> q" "q + 68 < 100 * B + 100" "400 * C \<le> q + 368"
  shows "365 * (q - 1) + A - B + C \<le> t"
proof -
  have "400 * (365 * (q - 1) + A - B + C) \<le> 400 * t"
    using assms by simp
  then show ?thesis by simp
qed

lemma year_upper:
  fixes q t A B C :: int
  assumes "400 * t < 146097 * q + 146097" "q + 3 < 4 * A + 4" "100 * B \<le> q + 71"
    "q + 371 < 400 * C + 400"
  shows "t < 365 * (q + 2) + A - B + C"
proof -
  have "400 * t < 400 * (365 * (q + 2) + A - B + C)"
    using assms by simp
  then show ?thesis by simp
qed

lemma YearFromTime_bracket:
  "DayFromYear (YearFromTime t) \<le> t \<and> t < DayFromYear (YearFromTime t + 1)"
proof -
  define q where "q = (400 * t) div 146097"
  have q: "146097 * q \<le> 400 * t" "400 * t < 146097 * q + 146097"
    using div_bounds[of 146097 "400 * t"] by (simp_all add: q_def)
  define y where "y = 1970 + q"
  have lo: "DayFromYear (y - 1) \<le> t"
  proof -
    have "365 * (q - 1) + q div 4 - (q + 68) div 100 + (q + 368) div 400 \<le> t"
      using q(1) div_bounds[of 4 q] div_bounds[of 100 "q + 68"] div_bounds[of 400 "q + 368"]
      by (intro year_lower) simp_all
    moreover have "y - 1 - 1970 = q - 1" "y - 1 - 1969 = q" "y - 1 - 1901 = q + 68"
      "y - 1 - 1601 = q + 368"
      by (simp_all add: y_def)
    ultimately show ?thesis by (simp only: DayFromYear_def)
  qed
  have hi: "t < DayFromYear (y + 2)"
  proof -
    have "t < 365 * (q + 2) + (q + 3) div 4 - (q + 71) div 100 + (q + 371) div 400"
      using q(2) div_bounds[of 4 "q + 3"] div_bounds[of 100 "q + 71"]
        div_bounds[of 400 "q + 371"]
      by (intro year_upper) simp_all
    moreover have "y + 2 - 1970 = q + 2" "y + 2 - 1969 = q + 3" "y + 2 - 1901 = q + 71"
      "y + 2 - 1601 = q + 371"
      by (simp_all add: y_def)
    ultimately show ?thesis by (simp only: DayFromYear_def)
  qed
  have Y: "YearFromTime t =
      (if t < DayFromYear y then y - 1 else if DayFromYear (y + 1) \<le> t then y + 1 else y)"
    by (simp add: YearFromTime_def Let_def y_def q_def)
  show ?thesis
  proof (cases "t < DayFromYear y")
    case True
    then have yt: "YearFromTime t = y - 1" by (simp add: Y)
    have e: "y - 1 + 1 = y" by simp
    show ?thesis unfolding yt e using True lo by blast
  next
    case False
    show ?thesis
    proof (cases "DayFromYear (y + 1) \<le> t")
      case True
      then have yt: "YearFromTime t = y + 1" using False by (simp add: Y)
      have e: "y + 1 + 1 = y + 2" by simp
      show ?thesis unfolding yt e using True hi by blast
    next
      case nxt: False
      then have yt: "YearFromTime t = y" using False by (simp add: Y)
      show ?thesis unfolding yt using False nxt by auto
    qed
  qed
qed


lemma div_step:
  fixes x d :: int
  assumes "1 < d"
  shows "(x + 1) div d = x div d + (if (x + 1) mod d = 0 then 1 else 0)"
proof -
  define q where "q = x div d"
  define r where "r = x mod d"
  have x: "x = d * q + r" and r: "0 \<le> r" "r < d"
    using assms by (simp_all add: q_def r_def)
  show ?thesis
  proof (cases "r = d - 1")
    case True
    then have e: "x + 1 = d * (q + 1) + 0" using x by (simp add: algebra_simps)
    have z: "(0::int) \<le> 0" "0 < d" using assms by simp_all
    have "(x + 1) div d = q + 1" by (rule int_div_pos_eq[OF e z])
    moreover have "(x + 1) mod d = 0" by (rule int_mod_pos_eq[OF e z])
    ultimately show ?thesis by (simp add: q_def)
  next
    case False
    then have e: "x + 1 = d * q + (r + 1)" and r1: "0 \<le> r + 1" "r + 1 < d"
      using x r by simp_all
    have "(x + 1) div d = q" by (rule int_div_pos_eq[OF e r1])
    moreover have "(x + 1) mod d = r + 1" by (rule int_mod_pos_eq[OF e r1])
    ultimately show ?thesis using r by (simp add: q_def)
  qed
qed

lemma mod_shift:
  fixes y d k :: int
  shows "(y - d * k) mod d = y mod d"
proof -
  have "(y - d * k) mod d = (y - (d * k) mod d) mod d"
    by (simp only: mod_diff_right_eq)
  then show ?thesis by simp
qed

lemma mod_400_100: "y mod 400 = 0 \<Longrightarrow> y mod 100 = 0" for y :: int
  using mod_mod_cancel[of 100 400 y] by simp

lemma mod_100_4: "y mod 100 = 0 \<Longrightarrow> y mod 4 = 0" for y :: int
  using mod_mod_cancel[of 4 100 y] by simp

lemma leap_sum:
  fixes y A B C :: int and p4 p100 p400 :: bool
  assumes "p400 \<Longrightarrow> p100" "p100 \<Longrightarrow> p4"
  shows "365 * (y - 1970) + 365 + (A + (if p4 then 1 else 0)) - (B + (if p100 then 1 else 0)) +
           (C + (if p400 then 1 else 0)) =
         365 * (y - 1970) + A - B + C + 365 + (if p4 \<and> (\<not> p100 \<or> p400) then 1 else 0)"
  using assms by (cases p4; cases p100; cases p400) simp_all

text \<open>A year has 365 days, and one more when it is a leap year.\<close>

lemma DaysInYear: "DayFromYear (y + 1) = DayFromYear y + 365 + InLeapYear y"
proof -
  have a: "(y + 1 - 1969) div 4 = (y - 1969) div 4 + (if y mod 4 = 0 then 1 else 0)"
  proof -
    have "y + 1 - 1969 = (y - 1969) + 1" by simp
    moreover have "(y - 1969 + 1) mod 4 = y mod 4"
      using mod_shift[of y 4 492] by simp
    ultimately show ?thesis using div_step[of 4 "y - 1969"] by simp
  qed
  have b: "(y + 1 - 1901) div 100 = (y - 1901) div 100 + (if y mod 100 = 0 then 1 else 0)"
  proof -
    have "y + 1 - 1901 = (y - 1901) + 1" by simp
    moreover have "(y - 1901 + 1) mod 100 = y mod 100"
      using mod_shift[of y 100 19] by simp
    ultimately show ?thesis using div_step[of 100 "y - 1901"] by simp
  qed
  have c: "(y + 1 - 1601) div 400 = (y - 1601) div 400 + (if y mod 400 = 0 then 1 else 0)"
  proof -
    have "y + 1 - 1601 = (y - 1601) + 1" by simp
    moreover have "(y - 1601 + 1) mod 400 = y mod 400"
      using mod_shift[of y 400 4] by simp
    ultimately show ?thesis using div_step[of 400 "y - 1601"] by simp
  qed
  have e: "365 * (y + 1 - 1970) = 365 * (y - 1970) + 365" by simp
  show ?thesis
    unfolding DayFromYear_def InLeapYear_def a b c e
    by (rule leap_sum) (fact mod_400_100 mod_100_4)+
qed

lemma InLeapYear_range: "InLeapYear y = 0 \<or> InLeapYear y = 1"
  unfolding InLeapYear_def by (rule if_split[THEN iffD2]) blast

lemma DayFromYear_less: "DayFromYear y < DayFromYear (y + 1)"
  using DaysInYear[of y] InLeapYear_range[of y] by linarith

lemma DayFromYear_mono: "y \<le> z \<Longrightarrow> DayFromYear y \<le> DayFromYear z"
proof (induction z rule: int_ge_induct)
  case base
  show ?case by simp
next
  case (step i)
  then show ?case using DayFromYear_less[of i] by linarith
qed

text \<open>The year is determined by its first day and the first day of the next year.\<close>

lemma YearFromTime_unique:
  assumes "DayFromYear y \<le> t" and "t < DayFromYear (y + 1)"
  shows "YearFromTime t = y"
proof (rule ccontr)
  assume n: "YearFromTime t \<noteq> y"
  have b: "DayFromYear (YearFromTime t) \<le> t" "t < DayFromYear (YearFromTime t + 1)"
    using YearFromTime_bracket[of t] by simp_all
  show False
  proof (cases "YearFromTime t < y")
    case True
    then have "DayFromYear (YearFromTime t + 1) \<le> DayFromYear y"
      by (intro DayFromYear_mono) simp
    then show False using b(2) assms(1) by linarith
  next
    case False
    then have "y + 1 \<le> YearFromTime t" using n by simp
    then have "DayFromYear (y + 1) \<le> DayFromYear (YearFromTime t)"
      by (rule DayFromYear_mono)
    then show False using b(1) assms(2) by linarith
  qed
qed

lemma DayWithinYear_range:
  "0 \<le> DayWithinYear t \<and> DayWithinYear t < 365 + InLeapYear (YearFromTime t)"
  using YearFromTime_bracket[of t] DaysInYear[of "YearFromTime t"]
  unfolding DayWithinYear_def by linarith

text \<open>Month and day of the month, for a day within the year and a leap flag.\<close>

lemma month_day_range:
  fixes d leap :: int
  assumes "0 \<le> d" "d < 365 + leap" "leap = 0 \<or> leap = 1"
  defines "m \<equiv>
      (if d < 31 then 0 else if d < 59 + leap then 1 else if d < 90 + leap then 2
      else if d < 120 + leap then 3 else if d < 151 + leap then 4
      else if d < 181 + leap then 5 else if d < 212 + leap then 6
      else if d < 243 + leap then 7 else if d < 273 + leap then 8
      else if d < 304 + leap then 9 else if d < 334 + leap then 10
      else (11::int))"
  shows "1 \<le> d - monthStart leap m + 1 \<and>
         d - monthStart leap m + 1 \<le>
           (if m = 1 then 28 + leap else if m = 3 \<or> m = 5 \<or> m = 8 \<or> m = 10 then 30 else 31)"
  using assms(1,2,3) unfolding m_def monthStart_def by auto

lemma DateFromTime_range:
  "1 \<le> DateFromTime t \<and> DateFromTime t \<le> DaysInMonth (YearFromTime t) (MonthFromTime t)"
  using month_day_range[OF _ _ InLeapYear_range[of "YearFromTime t"], of "DayWithinYear t"]
    DayWithinYear_range[of t]
  by (simp add: DateFromTime_def MonthFromTime_def DaysInMonth_def Let_def)


text \<open>
  \<^const>\<open>MakeDay\<close> and the three readers are inverse to each other on the dates of the
  calendar: the day number built from a year, a month and a day of that month reads back
  as that year, month and day.
\<close>

lemma month_of_day:
  fixes m d leap :: int
  assumes "0 \<le> m" "m \<le> 11" "1 \<le> d"
    and "d \<le> (if m = 1 then 28 + leap else if m = 3 \<or> m = 5 \<or> m = 8 \<or> m = 10 then 30 else 31)"
    and "leap = 0 \<or> leap = 1"
  defines "w \<equiv> monthStart leap m + d - 1"
  shows "0 \<le> w \<and> w < 365 + leap \<and>
     (if w < 31 then 0 else if w < 59 + leap then 1 else if w < 90 + leap then 2
      else if w < 120 + leap then 3 else if w < 151 + leap then 4
      else if w < 181 + leap then 5 else if w < 212 + leap then 6
      else if w < 243 + leap then 7 else if w < 273 + leap then 8
      else if w < 304 + leap then 9 else if w < 334 + leap then 10
      else (11::int)) = m"
proof -
  have "m = 0 \<or> m = 1 \<or> m = 2 \<or> m = 3 \<or> m = 4 \<or> m = 5 \<or> m = 6 \<or> m = 7 \<or> m = 8 \<or>
        m = 9 \<or> m = 10 \<or> m = 11"
    using assms(1,2) by arith
  then consider (jan) "m = 0" | (feb) "m = 1" | (mar) "m = 2" | (apr) "m = 3" | (may) "m = 4" | (jun) "m = 5"
    | (jul) "m = 6" | (aug) "m = 7" | (sep) "m = 8" | (oct) "m = 9" | (nov) "m = 10" | (dec) "m = 11"
    by blast
  then show ?thesis
  proof cases
    case jan
    then show ?thesis
      using assms(3,4,5) unfolding w_def monthStart_def by auto
  next
    case feb
    then show ?thesis
      using assms(3,4,5) unfolding w_def monthStart_def by auto
  next
    case mar
    then show ?thesis
      using assms(3,4,5) unfolding w_def monthStart_def by auto
  next
    case apr
    then show ?thesis
      using assms(3,4,5) unfolding w_def monthStart_def by auto
  next
    case may
    then show ?thesis
      using assms(3,4,5) unfolding w_def monthStart_def by auto
  next
    case jun
    then show ?thesis
      using assms(3,4,5) unfolding w_def monthStart_def by auto
  next
    case jul
    then show ?thesis
      using assms(3,4,5) unfolding w_def monthStart_def by auto
  next
    case aug
    then show ?thesis
      using assms(3,4,5) unfolding w_def monthStart_def by auto
  next
    case sep
    then show ?thesis
      using assms(3,4,5) unfolding w_def monthStart_def by auto
  next
    case oct
    then show ?thesis
      using assms(3,4,5) unfolding w_def monthStart_def by auto
  next
    case nov
    then show ?thesis
      using assms(3,4,5) unfolding w_def monthStart_def by auto
  next
    case dec
    then show ?thesis
      using assms(3,4,5) unfolding w_def monthStart_def by auto
  qed
qed

lemma MakeDay_inverse:
  assumes "0 \<le> m" "m \<le> 11" "1 \<le> d" "d \<le> DaysInMonth y m"
  shows "YearFromTime (MakeDay y m d) = y \<and> MonthFromTime (MakeDay y m d) = m \<and>
         DateFromTime (MakeDay y m d) = d"
proof -
  define leap where "leap = InLeapYear y"
  define w where "w = monthStart leap m + d - 1"
  have mk: "MakeDay y m d = DayFromYear y + w"
    using assms(1,2) by (simp add: MakeDay_def w_def leap_def)
  have dm: "d \<le> (if m = 1 then 28 + leap else if m = 3 \<or> m = 5 \<or> m = 8 \<or> m = 10 then 30 else 31)"
    using assms(4) unfolding DaysInMonth_def leap_def .
  have lp: "leap = 0 \<or> leap = 1"
    using InLeapYear_range[of y] by (simp add: leap_def)
  note md = month_of_day[OF assms(1,2,3) dm lp, folded w_def]
  have w: "0 \<le> w" "w < 365 + leap" using md by simp_all
  have yr: "YearFromTime (MakeDay y m d) = y"
    unfolding mk using w DaysInYear[of y] by (intro YearFromTime_unique) (simp_all add: leap_def)
  have dw: "DayWithinYear (MakeDay y m d) = w"
    unfolding DayWithinYear_def yr by (simp add: mk)
  have mo: "MonthFromTime (MakeDay y m d) = m"
    unfolding MonthFromTime_def dw yr Let_def leap_def[symmetric] using md by simp
  have da: "DateFromTime (MakeDay y m d) = d"
    unfolding DateFromTime_def dw yr mo leap_def[symmetric] by (simp add: w_def)
  show ?thesis using yr mo da by simp
qed

text \<open>A date-only string that parses reads back as the year, month and day it spells.\<close>

lemma Date_parse_reads_back:
  assumes "Date_parse s = Some t"
  shows "\<exists>ys ms ds. split CHR ''-'' s = [ys, ms, ds] \<and>
           getFullYear t = int (digitsValue 10 ys) \<and>
           getMonth t + 1 = int (digitsValue 10 ms) \<and>
           getDate t = int (digitsValue 10 ds)"
proof -
  obtain ys ms ds where sp: "split CHR ''-'' s = [ys, ms, ds]"
    using assms by (auto simp: Date_parse_def split: list.splits)
  define y where "y = int (digitsValue 10 ys)"
  define m where "m = int (digitsValue 10 ms)"
  define d where "d = int (digitsValue 10 ds)"
  have ok: "1 \<le> m" "m \<le> 12" "1 \<le> d" "d \<le> DaysInMonth y (m - 1)"
    and t: "TimeClip (MakeDay y (m - 1) d) = Some t"
    using assms unfolding Date_parse_def sp y_def m_def d_def
    by (simp_all add: Let_def split: if_splits)
  have "t = MakeDay y (m - 1) d"
    using t by (simp add: TimeClip_def split: if_splits)
  moreover have "0 \<le> m - 1" "m - 1 \<le> 11" using ok(1,2) by simp_all
  ultimately have "YearFromTime t = y" "MonthFromTime t = m - 1" "DateFromTime t = d"
    using MakeDay_inverse[OF _ _ ok(3,4)] by simp_all
  then show ?thesis
    using sp by (simp add: getFullYear_def getMonth_def getDate_def y_def m_def d_def)
qed



subsection \<open>Invoice numbering\<close>











subsection \<open>Line items\<close>

lemma updateArticle_nth:
  "k < length xs \<Longrightarrow>
   updateArticle i u xs ! k =
     (if article_id (xs ! k) = i then
        (if upd_quantity u \<noteq> None \<or> upd_unitPrice u \<noteq> None
         then (spread (xs ! k) u)\<lparr>total' := quantity (spread (xs ! k) u) * unitPrice (spread (xs ! k) u)\<rparr>
         else spread (xs ! k) u)
      else xs ! k)"
  by (simp add: updateArticle_def Let_def)

text \<open>
  Claim C10. \<^verbatim>\<open>updateArticle\<close> keeps the length and the order of the list, leaves every
  article whose id differs from the given one as it is, and in an article of that id
  changes no field whose key is absent from the updates, the total apart, which stays when
  neither \<^verbatim>\<open>total\<close>, \<^verbatim>\<open>quantity\<close> nor \<^verbatim>\<open>unitPrice\<close> is among the keys.
\<close>

theorem updateArticle_frame:
  "length (updateArticle i u xs) = length xs \<and>
   (\<forall>k < length xs. article_id (xs ! k) \<noteq> i \<longrightarrow> updateArticle i u xs ! k = xs ! k) \<and>
   (\<forall>k < length xs. article_id (xs ! k) = i \<longrightarrow>
      (upd_id u = None \<longrightarrow> article_id (updateArticle i u xs ! k) = article_id (xs ! k)) \<and>
      (upd_name u = None \<longrightarrow> name (updateArticle i u xs ! k) = name (xs ! k)) \<and>
      (upd_description u = None \<longrightarrow>
         description (updateArticle i u xs ! k) = description (xs ! k)) \<and>
      (upd_quantity u = None \<longrightarrow> quantity (updateArticle i u xs ! k) = quantity (xs ! k)) \<and>
      (upd_unit u = None \<longrightarrow> unit (updateArticle i u xs ! k) = unit (xs ! k)) \<and>
      (upd_unitPrice u = None \<longrightarrow>
         unitPrice (updateArticle i u xs ! k) = unitPrice (xs ! k)) \<and>
      (upd_total u = None \<and> upd_quantity u = None \<and> upd_unitPrice u = None \<longrightarrow>
         total' (updateArticle i u xs ! k) = total' (xs ! k)))"
proof -
  have len: "length (updateArticle i u xs) = length xs"
    by (simp add: updateArticle_def)
  have other: "\<forall>k < length xs. article_id (xs ! k) \<noteq> i \<longrightarrow> updateArticle i u xs ! k = xs ! k"
    by (simp add: updateArticle_nth)
  have same: "\<forall>k < length xs. article_id (xs ! k) = i \<longrightarrow>
      (upd_id u = None \<longrightarrow> article_id (updateArticle i u xs ! k) = article_id (xs ! k)) \<and>
      (upd_name u = None \<longrightarrow> name (updateArticle i u xs ! k) = name (xs ! k)) \<and>
      (upd_description u = None \<longrightarrow>
         description (updateArticle i u xs ! k) = description (xs ! k)) \<and>
      (upd_quantity u = None \<longrightarrow> quantity (updateArticle i u xs ! k) = quantity (xs ! k)) \<and>
      (upd_unit u = None \<longrightarrow> unit (updateArticle i u xs ! k) = unit (xs ! k)) \<and>
      (upd_unitPrice u = None \<longrightarrow>
         unitPrice (updateArticle i u xs ! k) = unitPrice (xs ! k)) \<and>
      (upd_total u = None \<and> upd_quantity u = None \<and> upd_unitPrice u = None \<longrightarrow>
         total' (updateArticle i u xs ! k) = total' (xs ! k))"
    by (simp add: updateArticle_nth spread_def)
  show ?thesis
    using len other same by blast
qed

theorem updateArticle_frame_witness:
  "length (updateArticle ''2'' (noUpdates\<lparr>upd_name := Some ''Conseil''\<rparr>) twoItems) = 2 \<and>
   updateArticle ''2'' (noUpdates\<lparr>upd_name := Some ''Conseil''\<rparr>) twoItems ! 0 = twoItems ! 0 \<and>
   quantity (updateArticle ''2'' (noUpdates\<lparr>upd_name := Some ''Conseil''\<rparr>) twoItems ! 1) = 1 \<and>
   total' (updateArticle ''2'' (noUpdates\<lparr>upd_name := Some ''Conseil''\<rparr>) twoItems ! 1) = 5"
proof -
  have l: "length twoItems = 2" by (simp add: twoItems_def)
  have i0: "article_id (twoItems ! 0) \<noteq> ''2''" by (simp add: twoItems_def item_def)
  have i1: "article_id (twoItems ! 1) = ''2''" by (simp add: twoItems_def item_def)
  have q: "quantity (twoItems ! 1) = 1" "total' (twoItems ! 1) = 5"
    by (simp_all add: twoItems_def item_def)
  have u: "upd_quantity (noUpdates\<lparr>upd_name := Some ''Conseil''\<rparr>) = None"
    "upd_unitPrice (noUpdates\<lparr>upd_name := Some ''Conseil''\<rparr>) = None"
    "upd_total (noUpdates\<lparr>upd_name := Some ''Conseil''\<rparr>) = None"
    by (simp_all add: noUpdates_def)
  have f: "(0::nat) < 2" "(1::nat) < 2" by simp_all
  show ?thesis
    using updateArticle_frame[of "''2''" "noUpdates\<lparr>upd_name := Some ''Conseil''\<rparr>" twoItems]
      l i0 i1 q u f
    by (metis (no_types, lifting))
qed

text \<open>
  Claim C8, as the code has it. After an update whose keys include \<^verbatim>\<open>quantity\<close> or
  \<^verbatim>\<open>unitPrice\<close>, the total of every updated article is its quantity times its unit price.
  After an update with neither key the total is the one the update carries, if it carries
  one, and the old one otherwise: \<^verbatim>\<open>updateArticle\<close> takes any \<^verbatim>\<open>Partial<Article>\<close>, a
  \<^verbatim>\<open>total\<close> included.
\<close>

theorem updateArticle_total:
  "\<forall>k < length xs. article_id (xs ! k) = i \<longrightarrow>
     (upd_quantity u \<noteq> None \<or> upd_unitPrice u \<noteq> None \<longrightarrow>
        total' (updateArticle i u xs ! k) =
          quantity (updateArticle i u xs ! k) * unitPrice (updateArticle i u xs ! k)) \<and>
     (upd_quantity u = None \<and> upd_unitPrice u = None \<longrightarrow>
        total' (updateArticle i u xs ! k) =
          (case upd_total u of None \<Rightarrow> total' (xs ! k) | Some v \<Rightarrow> v))"
  by (simp add: updateArticle_nth spread_def)

theorem updateArticle_total_witness:
  "total' (updateArticle ''1'' (noUpdates\<lparr>upd_quantity := Some 3\<rparr>) twoItems ! 0) = 30 \<and>
   quantity (updateArticle ''1'' (noUpdates\<lparr>upd_quantity := Some 3\<rparr>) twoItems ! 0) = 3 \<and>
   unitPrice (updateArticle ''1'' (noUpdates\<lparr>upd_quantity := Some 3\<rparr>) twoItems ! 0) = 10"
proof -
  have l: "(0::nat) < length twoItems" by (simp add: twoItems_def)
  have i: "article_id (twoItems ! 0) = ''1''" by (simp add: twoItems_def item_def)
  have u: "upd_quantity (noUpdates\<lparr>upd_quantity := Some 3\<rparr>) \<noteq> None" by simp
  have q: "quantity (updateArticle ''1'' (noUpdates\<lparr>upd_quantity := Some 3\<rparr>) twoItems ! 0) = 3"
    "unitPrice (updateArticle ''1'' (noUpdates\<lparr>upd_quantity := Some 3\<rparr>) twoItems ! 0) = 10"
    by (simp_all add: updateArticle_def twoItems_def item_def spread_def noUpdates_def)
  have "total' (updateArticle ''1'' (noUpdates\<lparr>upd_quantity := Some 3\<rparr>) twoItems ! 0) =
        quantity (updateArticle ''1'' (noUpdates\<lparr>upd_quantity := Some 3\<rparr>) twoItems ! 0) *
        unitPrice (updateArticle ''1'' (noUpdates\<lparr>upd_quantity := Some 3\<rparr>) twoItems ! 0)"
    using updateArticle_total[of twoItems "''1''" "noUpdates\<lparr>upd_quantity := Some 3\<rparr>"] l i u
    by blast
  then show ?thesis using q by simp
qed

text \<open>
  The claim as written fails: an update that carries only \<^verbatim>\<open>total\<close> sets it, and the
  total then differs from quantity times unit price (here 99 against 2 times 10).
\<close>

theorem updateArticle_total_settable:
  "total' (updateArticle ''1'' (noUpdates\<lparr>upd_total := Some 99\<rparr>) twoItems ! 0) = 99 \<and>
   quantity (updateArticle ''1'' (noUpdates\<lparr>upd_total := Some 99\<rparr>) twoItems ! 0) *
   unitPrice (updateArticle ''1'' (noUpdates\<lparr>upd_total := Some 99\<rparr>) twoItems ! 0) = 20 \<and>
   total' (updateArticle ''1'' (noUpdates\<lparr>upd_total := Some 99\<rparr>) twoItems ! 0) \<noteq>
   quantity (updateArticle ''1'' (noUpdates\<lparr>upd_total := Some 99\<rparr>) twoItems ! 0) *
   unitPrice (updateArticle ''1'' (noUpdates\<lparr>upd_total := Some 99\<rparr>) twoItems ! 0)"
  by (simp add: updateArticle_def twoItems_def item_def spread_def noUpdates_def)

subsection \<open>Lifecycle\<close>






lemma saveUserProfile_silent:
  "saveUserProfile w False s =
     (if user s = None \<or> \<not> isSupabaseConfigured w then (False, s)
      else if profileUpsertOk w then (True, s\<lparr>hasUnsavedChanges := False\<rparr>)
      else (False, s))"
  by (simp add: saveUserProfile_def)

text \<open>
  Claim C4. With Supabase configured, when the profile save before finalizing fails,
  \<^verbatim>\<open>finalizeInvoice\<close> stops: the status and the stored history are as before (a draft stays
  a draft, nothing is stamped or persisted) and the message is an error, the cancellation
  message when an invoice and a user are present.
\<close>

theorem finalize_aborts_on_failed_profile_save:
  assumes "isSupabaseConfigured w" and "\<not> profileUpsertOk w"
  shows "invoiceStatus (finalizeInvoice w s) = invoiceStatus s \<and>
         store (finalizeInvoice w s) = store s \<and>
         (\<exists>t. message (finalizeInvoice w s) = Some \<lparr>msgType = error, msgText = t\<rparr>) \<and>
         (currentInvoiceId s \<noteq> None \<and> currentInvoiceId s \<noteq> Some [] \<and> user s \<noteq> None \<longrightarrow>
            finalizeInvoice w s = s\<lparr>message := Some \<lparr>msgType = error, msgText = msg_cancelled\<rparr>\<rparr>)"
  using assms
  by (auto simp: finalizeInvoice_def saveUserProfile_silent setMessage_def split: option.splits)

theorem finalize_aborts_on_failed_profile_save_witness:
  "invoiceStatus (finalizeInvoice failingWorld draftState) = draft \<and>
   store (finalizeInvoice failingWorld draftState) = [] \<and>
   message (finalizeInvoice failingWorld draftState) =
     Some \<lparr>msgType = error, msgText = msg_cancelled\<rparr>"
proof -
  have w: "isSupabaseConfigured failingWorld" "\<not> profileUpsertOk failingWorld"
    by (simp_all add: failingWorld_def)
  have s: "currentInvoiceId draftState \<noteq> None" "currentInvoiceId draftState \<noteq> Some []"
    "user draftState \<noteq> None" "invoiceStatus draftState = draft" "store draftState = []"
    by (simp_all add: draftState_def)
  have "finalizeInvoice failingWorld draftState =
          draftState\<lparr>message := Some \<lparr>msgType = error, msgText = msg_cancelled\<rparr>\<rparr>"
    using finalize_aborts_on_failed_profile_save[OF w, of draftState] s by blast
  then show ?thesis using s by simp
qed





subsection \<open>Payment due date\<close>









subsection \<open>Pagination\<close>


text \<open>
  Claim C2, at the input on which the code breaks it. With no article the page count
  computed before drawing is 0, the render pass emits 2 pages (the first page and the page
  added for the Total HT box), and the footer of the second page reads "Page 0 / 0". With
  one article of 19 description lines the count is 2 and 2 pages are emitted, but the
  first page is numbered 2 as well.
\<close>

theorem page_count_mismatch_without_articles:
  "computeTotalPages sourceLayout (computePageBreaks sourceLayout []) = 0 \<and>
   length (renderPDF sourceLayout []) = 2 \<and>
   footers (renderPDF sourceLayout []) = [[], [(0, 0)]] \<and>
   computeTotalPages sourceLayout (computePageBreaks sourceLayout [item ''1'' 19 1 0]) = 2 \<and>
   length (renderPDF sourceLayout [item ''1'' 19 1 0]) = 2 \<and>
   footers (renderPDF sourceLayout [item ''1'' 19 1 0]) = [[(2, 2)], [(2, 2)]]"
  by code_simp

text \<open>
  Claim C6, at the input it is about. With no article \<^verbatim>\<open>pageBreaks\<close> is empty, so the
  table loop draws nothing: the document has 2 pages, the first with the preamble only (no
  table header), the second with the footer "Page 0 / 0", the Total HT box reading
  0.00 and the euro sign, and the payment block.
\<close>

theorem zero_articles_render:
  "computePageBreaks sourceLayout [] = [] \<and>
   renderPDF sourceLayout [] =
     [[Preamble],
      [PageFooter 0 0,
       TotalHT 50 ''Total HT'' (''0.00 '' @ [CHR 0xE2, CHR 0x82, CHR 0xAC]),
       PaymentAndMentions 70]]"
  by code_simp

subsection \<open>The page count and the render pass on a list with an article\<close>

text \<open>
  What the render pass does to the number of pages and to the cursor. Drawing never
  changes the number of pages; \<^const>\<open>addPage\<close> adds one.
\<close>

lemma draw_nonempty: "draw d doc \<noteq> []"
  by (simp add: draw_def)

lemma length_draw: "doc \<noteq> [] \<Longrightarrow> length (draw d doc) = length doc"
  by (simp add: draw_def)

lemma length_addPage: "length (addPage doc) = length doc + 1"
  by (simp add: addPage_def)

lemma addPage_nonempty: "addPage doc \<noteq> []"
  by (simp add: addPage_def)

lemma drawRows_result:
  "doc \<noteq> [] \<Longrightarrow>
   fst (drawRows st j as (c, doc)) = c + sum_list (map articleHeight as) \<and>
   length (snd (drawRows st j as (c, doc))) = length doc \<and>
   snd (drawRows st j as (c, doc)) \<noteq> []"
proof (induction as arbitrary: j c doc)
  case Nil
  then show ?case by simp
next
  case (Cons a as)
  have d: "draw (ArticleRow (st + j) c) doc \<noteq> []"
    "length (draw (ArticleRow (st + j) c) doc) = length doc"
    using Cons.prems by (simp_all add: draw_nonempty length_draw)
  show ?case
    using Cons.IH[OF d(1), of "j + 1" "c + articleHeight a"] d(2)
    by (simp add: drawArticle_def articleHeight_def add.assoc)
qed

lemma renderPage_result:
  assumes "doc \<noteq> []"
  shows "fst (renderPage N pd k (y, doc)) =
           (if k > 0 then 50 else y) + 10 + sum_list (map articleHeight (pageArticles pd)) + 10 \<and>
         length (snd (renderPage N pd k (y, doc))) = length doc + (if k > 0 then 1 else 0) \<and>
         snd (renderPage N pd k (y, doc)) \<noteq> []"
proof -
  define y0 where "y0 = (if k > 0 then 50 else y)"
  define doc0 where "doc0 = (if k > 0 then addPage doc else doc)"
  have doc0: "doc0 \<noteq> []" "length doc0 = length doc + (if k > 0 then 1 else 0)"
    using assms by (simp_all add: doc0_def addPage_nonempty length_addPage)
  define doc1 where "doc1 = draw (TableHeader y0) doc0"
  have doc1: "doc1 \<noteq> []" "length doc1 = length doc0"
    using doc0(1) by (simp_all add: doc1_def draw_nonempty length_draw)
  define r where "r = drawRows (startIndex pd) 0 (pageArticles pd) (y0 + 10, doc1)"
  have r: "fst r = y0 + 10 + sum_list (map articleHeight (pageArticles pd))"
    "length (snd r) = length doc1" "snd r \<noteq> []"
    using drawRows_result[OF doc1(1), of "startIndex pd" 0 "pageArticles pd" "y0 + 10"]
    by (simp_all add: r_def)
  have unfold: "renderPage N pd k (y, doc) =
      (fst r + 10, drawPageFooter (page pd) N (draw (TableBorder y0 (fst r - y0)) (snd r)))"
    by (simp add: renderPage_def Let_def drawTableHeader_def r_def doc1_def doc0_def y0_def
        split_beta)
  show ?thesis
    unfolding unfold using r doc1 doc0
    by (simp add: drawPageFooter_def draw_nonempty length_draw y0_def)
qed

lemma renderPages_result:
  "doc \<noteq> [] \<Longrightarrow> pbs \<noteq> [] \<Longrightarrow>
   fst (renderPages N k pbs (y, doc)) =
     (if k = 0 \<and> length pbs = 1 then y else 50) + 10 +
     sum_list (map articleHeight (pageArticles (last pbs))) + 10 \<and>
   length (snd (renderPages N k pbs (y, doc))) =
     length doc + length pbs - (if k = 0 then 1 else 0) \<and>
   snd (renderPages N k pbs (y, doc)) \<noteq> []"
proof (induction pbs arbitrary: k y doc)
  case Nil
  then show ?case by simp
next
  case (Cons pd rest)
  obtain y' doc' where p: "renderPage N pd k (y, doc) = (y', doc')"
    by (cases "renderPage N pd k (y, doc)")
  have p': "y' = (if k > 0 then 50 else y) + 10 + sum_list (map articleHeight (pageArticles pd)) + 10"
    "length doc' = length doc + (if k > 0 then 1 else 0)" "doc' \<noteq> []"
    using renderPage_result[OF Cons.prems(1), of N pd k y] by (simp_all add: p)
  show ?case
  proof (cases "rest = []")
    case True
    then show ?thesis using p p' by auto
  next
    case False
    have "fst (renderPages N (k + 1) rest (y', doc')) =
            50 + 10 + sum_list (map articleHeight (pageArticles (last rest))) + 10"
      "length (snd (renderPages N (k + 1) rest (y', doc'))) = length doc' + length rest"
      "snd (renderPages N (k + 1) rest (y', doc')) \<noteq> []"
      using Cons.IH[OF p'(3) False, of "k + 1" y'] by simp_all
    moreover have "length rest \<noteq> 0" using False by simp
    ultimately show ?thesis
      using False p p'(2) by auto
  qed
qed

lemma foldl_estimate:
  "foldl (\<lambda>y article. y + max 20 (int (length (description article)) * 4 + 10)) y0 as =
     y0 + sum_list (map articleHeight as)"
  by (induction as arbitrary: y0) (simp_all add: articleHeight_def)

text \<open>The count computed before drawing, for a list of pages that is not empty.\<close>

lemma computeTotalPages_nonempty:
  assumes "pbs \<noteq> []"
  shows "computeTotalPages L pbs =
     length pbs +
     (if \<not> hasSpaceForTotal (last pbs) then 1
      else if (if length pbs = 1 then yPos L else 50) + 10 +
              sum_list (map articleHeight (pageArticles (last pbs))) + 10 +
              totalHTSpace L + paymentAndMentionsSpace L
                > maxYPerPage L - bottomPadding L
           then 1 else 0)"
  using assms
  by (simp add: computeTotalPages_def lastPage_def Let_def foldl_estimate)

text \<open>The pages the summary and payment blocks add.\<close>

lemma renderSummary_length:
  assumes "pbs \<noteq> []" and "doc \<noteq> []"
  shows "length (renderSummary L pbs N amount (fy, doc)) =
     length doc +
     (if \<not> hasSpaceForTotal (last pbs) then 1
      else if fy + totalHTSpace L + paymentAndMentionsSpace L > maxYPerPage L - bottomPadding L
           then 1 else 0)"
  using assms
  by (simp add: renderSummary_def lastPage_def Let_def drawPageFooter_def length_draw
      draw_nonempty length_addPage addPage_nonempty)

lemma render_agrees_on_pages:
  assumes "pbs \<noteq> []"
  shows "length (renderSummary L pbs N amount (renderPages N 0 pbs (yPos L, [[Preamble]]))) =
         computeTotalPages L pbs"
proof -
  obtain fy doc where r: "renderPages N 0 pbs (yPos L, [[Preamble]]) = (fy, doc)"
    by (cases "renderPages N 0 pbs (yPos L, [[Preamble]])")
  have ne: "[[Preamble]] \<noteq> ([] :: Doc)" by simp
  have fy: "fy = (if length pbs = 1 then yPos L else 50) + 10 +
     sum_list (map articleHeight (pageArticles (last pbs))) + 10"
    and len: "length doc = length pbs" and doc: "doc \<noteq> []"
    using renderPages_result[OF ne assms, of N 0 "yPos L"] by (simp_all add: r)
  show ?thesis
    unfolding r renderSummary_length[OF assms doc] computeTotalPages_nonempty[OF assms]
    by (simp add: fy len)
qed

text \<open>The packing loop always ends with a page to push when there is an article.\<close>

lemma packStep_inv: "packInv s i \<Longrightarrow> packInv (packStep L s a i) (Suc i)"
  by (auto simp: packInv_def packStep_def Let_def closePage_def list_all_iff)

lemma packStep_has_article: "currentPageArticles (packStep L s a i) \<noteq> []"
  by (simp add: packStep_def Let_def)

lemma packLoop_inv: "packInv s i \<Longrightarrow> packInv (packLoop L s i as) (i + length as)"
proof (induction as arbitrary: s i)
  case Nil
  then show ?case by simp
next
  case (Cons a as)
  show ?case
    using Cons.IH[OF packStep_inv[OF Cons.prems, of L a]] by simp
qed

lemma packLoop_has_article:
  "currentPageArticles s \<noteq> [] \<or> as \<noteq> [] \<Longrightarrow> currentPageArticles (packLoop L s i as) \<noteq> []"
proof (induction as arbitrary: s i)
  case Nil
  then show ?case by simp
next
  case (Cons a as)
  show ?case
    using Cons.IH[of "packStep L s a i" "i + 1"] by (simp add: packStep_has_article)
qed

lemma computePageBreaks_nonempty:
  assumes "as \<noteq> []"
  shows "computePageBreaks L as \<noteq> []"
proof -
  define s where "s = packLoop L (packInit L) 0 as"
  have "packInv (packInit L) 0"
    by (simp add: packInv_def packInit_def)
  then have "packInv s (0 + length as)"
    unfolding s_def by (rule packLoop_inv)
  then have "\<forall>p \<in> set (pageBreaks s). startIndex p \<noteq> articleStartIndex s"
    by (auto simp: packInv_def list_all_iff)
  then have f: "find (\<lambda>p. startIndex p = articleStartIndex s) (pageBreaks s) = None"
    by (simp add: find_None_iff)
  have c: "currentPageArticles s \<noteq> []"
    unfolding s_def using assms by (intro packLoop_has_article) simp
  show ?thesis
    using f c by (simp add: computePageBreaks_def s_def[symmetric] Let_def)
qed

text \<open>
  So for every list with at least one article, and every page geometry, the page count
  computed before drawing is the number of pages the render pass emits.
\<close>

lemma page_count_agrees_with_articles:
  "as \<noteq> [] \<Longrightarrow> computeTotalPages L (computePageBreaks L as) = length (renderPDF L as)"
  using render_agrees_on_pages[OF computePageBreaks_nonempty, of as L]
  by (simp add: renderPDF_def Let_def)

end
